theory Spec2Isabelle
  imports Main "HOL-Library.Word"
begin

section \<open>Values of the platform: buffers, strings, errors\<close>

text \<open>
  A Node \<open>Buffer\<close> is a sequence of bytes. A JavaScript string that travels on the wire
  (an envelope, a base64 or hex text, an algorithm name) is a \<open>string\<close>. An exception
  is a value of \<open>error\<close>, and a function that can throw returns \<open>error + 'a\<close>.
\<close>

type_synonym byte = "8 word"
type_synonym buffer = "byte list"

datatype error =
    TypeError      \<comment> \<open>raised by the language: a call of a missing method, \<open>Buffer.from(undefined)\<close>\<close>
  | AesError       \<comment> \<open>thrown by \<open>Aes.decrypt_with_checksum\<close>\<close>
  | CryptoError    \<comment> \<open>thrown by \<open>createCipheriv\<close>, \<open>createDecipheriv\<close> or \<open>final\<close>\<close>
  | JSONError      \<comment> \<open>thrown by \<open>JSON.stringify\<close> or \<open>JSON.parse\<close>\<close>

subsection \<open>\<open>buf.slice(start, end)\<close> and \<open>buf.slice(start)\<close>\<close>

text \<open>Both clamp to the buffer: a range that leaves it is cut, never an error.\<close>

definition slice :: "buffer \<Rightarrow> nat \<Rightarrow> nat \<Rightarrow> buffer" where
  "slice buf start end = take (end - start) (drop start buf)"

definition slice_from :: "buffer \<Rightarrow> nat \<Rightarrow> buffer" where
  "slice_from buf start = drop start buf"

subsection \<open>\<open>buf.toString('base64')\<close> and \<open>Buffer.from(str, 'base64')\<close>\<close>

definition base64_alphabet :: string where
  "base64_alphabet = ''ABCDEFGHIJKLMNOPQRSTUVWXYZabcdefghijklmnopqrstuvwxyz0123456789+/''"

definition base64_char :: "nat \<Rightarrow> char" where
  "base64_char i = base64_alphabet ! i"

fun toString_base64 :: "buffer \<Rightarrow> string" where
  "toString_base64 [] = []"
| "toString_base64 [a] =
     (let x = unat a
      in [base64_char (x div 4), base64_char (x mod 4 * 16), CHR ''='', CHR ''=''])"
| "toString_base64 [a, b] =
     (let x = unat a; y = unat b
      in [base64_char (x div 4), base64_char (x mod 4 * 16 + y div 16),
          base64_char (y mod 16 * 4), CHR ''=''])"
| "toString_base64 (a # b # c # rest) =
     (let x = unat a; y = unat b; z = unat c
      in [base64_char (x div 4), base64_char (x mod 4 * 16 + y div 16),
          base64_char (y mod 16 * 4 + z div 64), base64_char (z mod 64)])
     @ toString_base64 rest"

fun index_of :: "'a \<Rightarrow> 'a list \<Rightarrow> nat option" where
  "index_of x [] = None"
| "index_of x (y # ys) = (if x = y then Some 0 else map_option Suc (index_of x ys))"

text \<open>
  Node's decoder reads the standard and the URL-safe alphabet, skips every other
  character, and stops at the first \<open>=\<close>. It never throws.
\<close>

definition unbase64 :: "char \<Rightarrow> nat option" where
  "unbase64 c =
     (if c = CHR ''-'' then Some 62
      else if c = CHR ''_'' then Some 63
      else index_of c base64_alphabet)"

fun sextets_to_bytes :: "nat list \<Rightarrow> buffer" where
  "sextets_to_bytes (s0 # s1 # s2 # s3 # rest) =
     of_nat (s0 * 4 + s1 div 16) # of_nat (s1 mod 16 * 16 + s2 div 4)
       # of_nat (s2 mod 4 * 64 + s3) # sextets_to_bytes rest"
| "sextets_to_bytes [s0, s1, s2] =
     [of_nat (s0 * 4 + s1 div 16), of_nat (s1 mod 16 * 16 + s2 div 4)]"
| "sextets_to_bytes [s0, s1] = [of_nat (s0 * 4 + s1 div 16)]"
| "sextets_to_bytes [s0] = []"
| "sextets_to_bytes [] = []"

definition Buffer_from_base64 :: "string \<Rightarrow> buffer" where
  "Buffer_from_base64 str =
     sextets_to_bytes (List.map_filter unbase64 (takeWhile (\<lambda>c. c \<noteq> CHR ''='') str))"

subsection \<open>\<open>buf.toString('hex')\<close> and \<open>Buffer.from(str, 'hex')\<close>\<close>

definition hex_alphabet :: string where
  "hex_alphabet = ''0123456789abcdef''"

definition hex_char :: "nat \<Rightarrow> char" where
  "hex_char i = hex_alphabet ! i"

fun toString_hex :: "buffer \<Rightarrow> string" where
  "toString_hex [] = []"
| "toString_hex (a # rest) =
     hex_char (unat a div 16) # hex_char (unat a mod 16) # toString_hex rest"

definition unhex :: "char \<Rightarrow> nat option" where
  "unhex c =
     (case index_of c hex_alphabet of
        Some i \<Rightarrow> Some i
      | None \<Rightarrow> map_option (\<lambda>i. i + 10) (index_of c ''ABCDEF''))"

text \<open>The decoder stops at the first pair that is not two hex digits and drops an odd last character.\<close>

fun Buffer_from_hex :: "string \<Rightarrow> buffer" where
  "Buffer_from_hex (h # l # rest) =
     (case unhex h of
        None \<Rightarrow> []
      | Some a \<Rightarrow>
          (case unhex l of
             None \<Rightarrow> []
           | Some b \<Rightarrow> of_nat (a * 16 + b) # Buffer_from_hex rest))"
| "Buffer_from_hex [c] = []"
| "Buffer_from_hex [] = []"

subsection \<open>\<open>str.split(sep, limit)\<close> with a one-character separator\<close>

text \<open>
  The string is cut at every occurrence of the separator, and the list of pieces is then
  truncated to \<open>limit\<close> entries: the pieces beyond the limit are dropped, not joined.
\<close>

fun split_all :: "char \<Rightarrow> string \<Rightarrow> string list" where
  "split_all sep [] = [Nil]"
| "split_all sep (c # cs) =
     (if c = sep then [] # split_all sep cs
      else (case split_all sep cs of
              p # ps \<Rightarrow> (c # p) # ps
            | [] \<Rightarrow> [c # Nil]))"

definition split :: "string \<Rightarrow> char \<Rightarrow> nat \<Rightarrow> string list" where
  "split str sep limit = take limit (split_all sep str)"

text \<open>\<open>parts[i]\<close>: \<open>undefined\<close> beyond the end of the array.\<close>

definition at_index :: "'a list \<Rightarrow> nat \<Rightarrow> 'a option" where
  "at_index xs i = (if i < length xs then Some (xs ! i) else None)"

subsection \<open>\<open>randomBytes(n)\<close>\<close>

text \<open>
  The platform's random source is the infinite sequence of bytes it is going to deliver;
  a call takes the next \<open>n\<close> of them and leaves the rest.
\<close>

type_synonym rng = "nat \<Rightarrow> byte"

definition randomBytes :: "nat \<Rightarrow> rng \<Rightarrow> buffer \<times> rng" where
  "randomBytes n g = (map g [0..<n], \<lambda>i. g (n + i))"

subsection \<open>\<open>Buffer.from(value, encoding)\<close> on a value that may be \<open>null\<close> or \<open>undefined\<close>\<close>

definition Buffer_from :: "string option \<Rightarrow> (string \<Rightarrow> buffer) \<Rightarrow> error + buffer" where
  "Buffer_from v decode = (case v of None \<Rightarrow> Inl TypeError | Some str \<Rightarrow> Inr (decode str))"

section \<open>The collaborators the module imports\<close>

text \<open>
  \<open>key\<close> and \<open>Aes\<close> of the module \<open>ecc\<close> are parameters of the model:
  \<open>key.random32ByteBuffer()\<close>, \<open>Aes.encrypt_with_checksum\<close> and
  \<open>Aes.decrypt_with_checksum\<close>. Private and public keys are opaque.
\<close>

record ('priv, 'pub) ecc =
  random32ByteBuffer :: "rng \<Rightarrow> buffer \<times> rng"
  encrypt_with_checksum :: "'priv \<Rightarrow> 'pub \<Rightarrow> string \<Rightarrow> buffer \<Rightarrow> buffer"
  decrypt_with_checksum :: "'priv \<Rightarrow> 'pub \<Rightarrow> string \<Rightarrow> buffer \<Rightarrow> error + buffer"

text \<open>
  \<open>JSON.stringify\<close>, \<open>JSON.parse\<close>, \<open>Buffer.from(text, 'utf-8')\<close> and
  \<open>buf.toString('utf-8')\<close>, over the objects \<open>'obj\<close> and the JSON texts \<open>'txt\<close>.
\<close>

record ('obj, 'txt) json =
  JSON_stringify :: "'obj \<Rightarrow> error + 'txt"
  JSON_parse :: "'txt \<Rightarrow> error + 'obj"
  utf8_encode :: "'txt \<Rightarrow> buffer"
  utf8_decode :: "buffer \<Rightarrow> 'txt"

text \<open>
  \<open>createCipheriv\<close> and \<open>createDecipheriv\<close> of the module \<open>crypto\<close>, and the methods
  \<open>update\<close> and \<open>final\<close> of the objects they return; \<open>'c\<close> is the state of such an
  object. The third argument of the constructors is the IV, or \<open>null\<close>.
\<close>

record 'c crypto =
  createCipheriv :: "string \<Rightarrow> buffer \<Rightarrow> buffer option \<Rightarrow> error + 'c"
  createDecipheriv :: "string \<Rightarrow> buffer \<Rightarrow> buffer option \<Rightarrow> error + 'c"
  update :: "'c \<Rightarrow> buffer \<Rightarrow> buffer \<times> 'c"
  final :: "'c \<Rightarrow> error + buffer"

text \<open>
  A transform is what \<open>make_content_cipher_stream\<close> returns: a \<open>PassThrough\<close> stream
  of the module \<open>stream\<close>, or a cipher object of \<open>crypto\<close>. A \<open>PassThrough\<close> has the
  methods of a stream (\<open>write\<close>, \<open>end\<close>, \<open>pipe\<close>); it has no method \<open>update\<close> and no
  method \<open>final\<close>, so calling either is a \<open>TypeError\<close>.
\<close>

datatype 'c transform = PassThrough | Cipheriv 'c

definition transform_update ::
  "'c crypto \<Rightarrow> 'c transform \<Rightarrow> buffer \<Rightarrow> error + (buffer \<times> 'c transform)" where
  "transform_update api transform input =
     (case transform of
        PassThrough \<Rightarrow> Inl TypeError
      | Cipheriv c \<Rightarrow> (case update api c input of (out, c') \<Rightarrow> Inr (out, Cipheriv c')))"

definition transform_final :: "'c crypto \<Rightarrow> 'c transform \<Rightarrow> error + buffer" where
  "transform_final api transform =
     (case transform of
        PassThrough \<Rightarrow> Inl TypeError
      | Cipheriv c \<Rightarrow> final api c)"

section \<open>The asymmetric envelope codec\<close>

definition encrypt_object ::
  "('priv, 'pub) ecc \<Rightarrow> ('obj, 'txt) json \<Rightarrow> rng \<Rightarrow> 'obj \<Rightarrow> 'priv \<Rightarrow> 'pub
     \<Rightarrow> (error + string) \<times> rng" where
  "encrypt_object E J g obj subject_private_key operator_public_key =
     (case random32ByteBuffer E g of
        (noncebuf, g') \<Rightarrow>
          (let nonce = toString_base64 noncebuf
           in case JSON_stringify J obj of
                Inl e \<Rightarrow> (Inl e, g')
              | Inr text \<Rightarrow>
                  (let cipherbuf = encrypt_with_checksum E
                         subject_private_key operator_public_key nonce (utf8_encode J text)
                   in (Inr (nonce @ '':'' @ toString_base64 cipherbuf), g'))))"

text \<open>
  \<open>parts[1]\<close> is \<open>undefined\<close> when the string has no \<open>:\<close>, and \<open>Buffer.from\<close> then
  throws, before the primitive is called. Where \<open>parts[1]\<close> is there, so is \<open>parts[0]\<close>.
\<close>

definition decrypt_object ::
  "('priv, 'pub) ecc \<Rightarrow> ('obj, 'txt) json \<Rightarrow> string \<Rightarrow> 'pub \<Rightarrow> 'priv \<Rightarrow> error + 'obj" where
  "decrypt_object E J str subject_public_key operator_private_key =
     (let parts = split str (CHR '':'') 2
      in case Buffer_from (at_index parts 1) Buffer_from_base64 of
           Inl e \<Rightarrow> Inl e
         | Inr cipherbuf \<Rightarrow>
             (case at_index parts 0 of
                None \<Rightarrow> Inl TypeError
              | Some nonce \<Rightarrow>
                  (case decrypt_with_checksum E
                          operator_private_key subject_public_key nonce cipherbuf of
                     Inl e \<Rightarrow> Inl e
                   | Inr plainbuf \<Rightarrow> JSON_parse J (utf8_decode J plainbuf))))"

definition encrypt_buffer ::
  "('priv, 'pub) ecc \<Rightarrow> rng \<Rightarrow> buffer \<Rightarrow> 'priv \<Rightarrow> 'pub \<Rightarrow> buffer \<times> rng" where
  "encrypt_buffer E g buf subject_private_key operator_public_key =
     (case random32ByteBuffer E g of
        (noncebuf, g') \<Rightarrow>
          (let cipherbuf = encrypt_with_checksum E
                 subject_private_key operator_public_key (toString_base64 noncebuf) buf
           in (concat [ [of_nat (length noncebuf)], noncebuf, cipherbuf ], g')))"

text \<open>
  \<open>buf.slice(0, 1)[0]\<close> is \<open>undefined\<close> on the empty buffer; \<open>1 + undefined\<close> is \<open>NaN\<close>,
  which \<open>slice\<close> reads as the index 0.
\<close>

definition decrypt_buffer ::
  "('priv, 'pub) ecc \<Rightarrow> buffer \<Rightarrow> 'pub \<Rightarrow> 'priv \<Rightarrow> error + buffer" where
  "decrypt_buffer E buf subject_public_key operator_private_key =
     (let noncelen = at_index (slice buf 0 1) 0;
          after_nonce = (case noncelen of None \<Rightarrow> 0 | Some n \<Rightarrow> 1 + unat n);
          noncebuf = slice buf 1 after_nonce;
          cipherbuf = slice_from buf after_nonce
      in decrypt_with_checksum E
           operator_private_key subject_public_key (toString_base64 noncebuf) cipherbuf)"

section \<open>Content keys and the content cipher\<close>

definition CONTENT_CIPHER_ALGORITHM :: string where
  "CONTENT_CIPHER_ALGORITHM = ''aes-256-cbc''"

definition CONTENT_CIPHER_ALGORITHM_KEY_SIZE :: nat where
  "CONTENT_CIPHER_ALGORITHM_KEY_SIZE = 32"

definition CONTENT_CIPHER_ALGORITHM_IV_SIZE :: nat where
  "CONTENT_CIPHER_ALGORITHM_IV_SIZE = 16"

definition CONTENT_CIPHER_ALGORITHM_NOENCRYPT :: string where
  "CONTENT_CIPHER_ALGORITHM_NOENCRYPT = ''noencrypt''"

text \<open>The object \<open>{ algo, key, iv }\<close>; \<open>None\<close> is \<open>null\<close>.\<close>

record content_key =
  algo :: string
  key :: "string option"
  iv :: "string option"

definition make_content_key :: "rng \<Rightarrow> content_key \<times> rng" where
  "make_content_key g =
     (case (if CONTENT_CIPHER_ALGORITHM_KEY_SIZE > 0
            then (case randomBytes CONTENT_CIPHER_ALGORITHM_KEY_SIZE g of
                    (bytes, g') \<Rightarrow> (Some (toString_hex bytes), g'))
            else (None, g)) of
        (k, g1) \<Rightarrow>
          (case (if CONTENT_CIPHER_ALGORITHM_IV_SIZE > 0
                 then (case randomBytes CONTENT_CIPHER_ALGORITHM_IV_SIZE g1 of
                         (bytes, g') \<Rightarrow> (Some (toString_hex bytes), g'))
                 else (None, g1)) of
             (v, g2) \<Rightarrow> (\<lparr>algo = CONTENT_CIPHER_ALGORITHM, key = k, iv = v\<rparr>, g2)))"

definition make_content_key_noencrypt :: content_key where
  "make_content_key_noencrypt =
     \<lparr>algo = CONTENT_CIPHER_ALGORITHM_NOENCRYPT, key = None, iv = None\<rparr>"

text \<open>
  \<open>content_key.iv ? Buffer.from(content_key.iv, 'hex') : null\<close>: \<open>null\<close> and the empty
  string are falsy.
\<close>

definition iv_argument :: "content_key \<Rightarrow> buffer option" where
  "iv_argument content_key =
     (case iv content_key of
        None \<Rightarrow> None
      | Some str \<Rightarrow> (if str = [] then None else Some (Buffer_from_hex str)))"

definition make_content_cipher_stream :: "'c crypto \<Rightarrow> content_key \<Rightarrow> error + 'c transform" where
  "make_content_cipher_stream api content_key =
     (if algo content_key = CONTENT_CIPHER_ALGORITHM_NOENCRYPT then Inr PassThrough
      else case Buffer_from (key content_key) Buffer_from_hex of
             Inl e \<Rightarrow> Inl e
           | Inr keybuf \<Rightarrow>
               (case createCipheriv api (algo content_key) keybuf (iv_argument content_key) of
                  Inl e \<Rightarrow> Inl e
                | Inr c \<Rightarrow> Inr (Cipheriv c)))"

definition make_content_decipher_stream :: "'c crypto \<Rightarrow> content_key \<Rightarrow> error + 'c transform" where
  "make_content_decipher_stream api content_key =
     (if algo content_key = CONTENT_CIPHER_ALGORITHM_NOENCRYPT then Inr PassThrough
      else case Buffer_from (key content_key) Buffer_from_hex of
             Inl e \<Rightarrow> Inl e
           | Inr keybuf \<Rightarrow>
               (case createDecipheriv api (algo content_key) keybuf (iv_argument content_key) of
                  Inl e \<Rightarrow> Inl e
                | Inr c \<Rightarrow> Inr (Cipheriv c)))"

definition crypto_content_transform :: "'c crypto \<Rightarrow> 'c transform \<Rightarrow> buffer \<Rightarrow> error + buffer" where
  "crypto_content_transform api transform input =
     (case transform_update api transform input of
        Inl e \<Rightarrow> Inl e
      | Inr (buf_main, transform') \<Rightarrow>
          (case transform_final api transform' of
             Inl e \<Rightarrow> Inl e
           | Inr buf_final \<Rightarrow> Inr (concat [buf_main, buf_final])))"

definition encrypt_content :: "'c crypto \<Rightarrow> buffer \<Rightarrow> content_key \<Rightarrow> error + buffer" where
  "encrypt_content api plain_content_buf content_key =
     (case make_content_cipher_stream api content_key of
        Inl e \<Rightarrow> Inl e
      | Inr cipher \<Rightarrow> crypto_content_transform api cipher plain_content_buf)"

definition decrypt_content :: "'c crypto \<Rightarrow> buffer \<Rightarrow> content_key \<Rightarrow> error + buffer" where
  "decrypt_content api cipher_content_buf content_key =
     (case make_content_decipher_stream api content_key of
        Inl e \<Rightarrow> Inl e
      | Inr decipher \<Rightarrow> crypto_content_transform api decipher cipher_content_buf)"

section \<open>The contracts of the collaborators\<close>

text \<open>
  The round trip of the ECDH-AEAD primitive: what one party encrypts with its private key
  and the peer's public key, the peer decrypts with its private key and the first party's
  public key, under the same nonce. \<open>pair priv pub\<close> says that the two keys form a pair.
\<close>

definition aead_round_trip :: "('priv, 'pub) ecc \<Rightarrow> ('priv \<Rightarrow> 'pub \<Rightarrow> bool) \<Rightarrow> bool" where
  "aead_round_trip E pair \<longleftrightarrow>
     (\<forall>priv_s pub_s priv_o pub_o nonce m.
        pair priv_s pub_s \<longrightarrow> pair priv_o pub_o \<longrightarrow>
        decrypt_with_checksum E priv_o pub_s nonce
          (encrypt_with_checksum E priv_s pub_o nonce m) = Inr m)"

text \<open>An object is serializable when its JSON text, encoded as UTF-8, reads back as the object.\<close>

definition serializable :: "('obj, 'txt) json \<Rightarrow> 'obj \<Rightarrow> bool" where
  "serializable J obj \<longleftrightarrow>
     (\<exists>text. JSON_stringify J obj = Inr text
        \<and> utf8_decode J (utf8_encode J text) = text
        \<and> JSON_parse J text = Inr obj)"

text \<open>
  The round trip of the platform's cipher for the algorithm \<open>a\<close>: with a key of
  \<open>key_size\<close> bytes and an IV of \<open>iv_size\<close> bytes both constructors succeed, and
  deciphering (\<open>update\<close> on the whole input, then \<open>final\<close>) what the cipher produced
  (\<open>update\<close> on the whole input, then \<open>final\<close>) gives the input back.
\<close>

definition cipher_round_trip :: "'c crypto \<Rightarrow> string \<Rightarrow> nat \<Rightarrow> nat \<Rightarrow> bool" where
  "cipher_round_trip api a key_size iv_size \<longleftrightarrow>
     (\<forall>k v input. length k = key_size \<longrightarrow> length v = iv_size \<longrightarrow>
        (\<exists>c d c_main c' c_final d_main d' d_final.
           createCipheriv api a k (Some v) = Inr c
         \<and> update api c input = (c_main, c') \<and> final api c' = Inr c_final
         \<and> createDecipheriv api a k (Some v) = Inr d
         \<and> update api d (c_main @ c_final) = (d_main, d') \<and> final api d' = Inr d_final
         \<and> d_main @ d_final = input))"

text \<open>
  The platform's constructors throw when the key or the IV has not the size the algorithm
  \<open>a\<close> asks for; a \<open>null\<close> IV counts as an IV of no bytes.
\<close>

definition iv_length :: "buffer option \<Rightarrow> nat" where
  "iv_length v = (case v of None \<Rightarrow> 0 | Some bytes \<Rightarrow> length bytes)"

definition rejects_wrong_sizes :: "'c crypto \<Rightarrow> string \<Rightarrow> nat \<Rightarrow> nat \<Rightarrow> bool" where
  "rejects_wrong_sizes api a key_size iv_size \<longleftrightarrow>
     (\<forall>k v. length k \<noteq> key_size \<or> iv_length v \<noteq> iv_size \<longrightarrow>
        isl (createCipheriv api a k v) \<and> isl (createDecipheriv api a k v))"

section \<open>Small collaborators to run the module on\<close>

text \<open>
  A primitive over numbers as keys: the public key of \<open>a\<close> is \<open>3 * a\<close>, the shared secret
  of a private and a public key is their product, so that both parties derive the same
  one. The ciphertext is the checksum (the sum of the bytes) followed by the message,
  each byte shifted by a pad made of the shared secret and the nonce; decryption shifts
  back and fails when the checksum does not fit.
\<close>

definition toy_pair :: "nat \<Rightarrow> nat \<Rightarrow> bool" where
  "toy_pair priv pub \<longleftrightarrow> pub = 3 * priv"

definition toy_pad :: "nat \<Rightarrow> nat \<Rightarrow> string \<Rightarrow> byte" where
  "toy_pad priv pub nonce = of_nat (priv * pub + length nonce)"

definition toy_encrypt :: "nat \<Rightarrow> nat \<Rightarrow> string \<Rightarrow> buffer \<Rightarrow> buffer" where
  "toy_encrypt priv pub nonce m = map (\<lambda>x. x + toy_pad priv pub nonce) (sum_list m # m)"

definition toy_decrypt :: "nat \<Rightarrow> nat \<Rightarrow> string \<Rightarrow> buffer \<Rightarrow> error + buffer" where
  "toy_decrypt priv pub nonce c =
     (case map (\<lambda>x. x - toy_pad priv pub nonce) c of
        [] \<Rightarrow> Inl AesError
      | s # m \<Rightarrow> (if s = sum_list m then Inr m else Inl AesError))"

definition toy_ecc :: "(nat, nat) ecc" where
  "toy_ecc = \<lparr>random32ByteBuffer = randomBytes 32,
              encrypt_with_checksum = toy_encrypt,
              decrypt_with_checksum = toy_decrypt\<rparr>"

text \<open>A stub that hands out a given nonce and a given ciphertext, and decrypts nothing.\<close>

definition fixed_ecc :: "buffer \<Rightarrow> buffer \<Rightarrow> (unit, unit) ecc" where
  "fixed_ecc noncebuf cipherbuf =
     \<lparr>random32ByteBuffer = (\<lambda>g. (noncebuf, g)),
      encrypt_with_checksum = (\<lambda>priv pub nonce m. cipherbuf),
      decrypt_with_checksum = (\<lambda>priv pub nonce c. Inl AesError)\<rparr>"

text \<open>A stub whose decryption returns the ciphertext it is given.\<close>

definition echo_ecc :: "(unit, unit) ecc" where
  "echo_ecc =
     \<lparr>random32ByteBuffer = randomBytes 32,
      encrypt_with_checksum = (\<lambda>priv pub nonce m. m),
      decrypt_with_checksum = (\<lambda>priv pub nonce c. Inr c)\<rparr>"

text \<open>Objects that are their own text, and texts that are their own bytes.\<close>

definition echo_json :: "(buffer, buffer) json" where
  "echo_json =
     \<lparr>JSON_stringify = Inr, JSON_parse = Inr,
      utf8_encode = (\<lambda>text. text), utf8_decode = (\<lambda>bytes. bytes)\<rparr>"

text \<open>
  The JSON of the numbers 0 to 9: the text of a number is its digit, given as the one
  byte of its UTF-8 form.
\<close>

definition digit_stringify :: "nat \<Rightarrow> error + buffer" where
  "digit_stringify n = (if n < 10 then Inr [of_nat (48 + n)] else Inl JSONError)"

definition digit_parse :: "buffer \<Rightarrow> error + nat" where
  "digit_parse text =
     (case text of
        [b] \<Rightarrow> (if 48 \<le> unat b \<and> unat b < 58 then Inr (unat b - 48) else Inl JSONError)
      | _ \<Rightarrow> Inl JSONError)"

definition digit_json :: "(nat, buffer) json" where
  "digit_json =
     \<lparr>JSON_stringify = digit_stringify, JSON_parse = digit_parse,
      utf8_encode = (\<lambda>text. text), utf8_decode = (\<lambda>bytes. bytes)\<rparr>"

text \<open>
  A cipher that knows one algorithm, with a key of 32 bytes and an IV of 16. The cipher
  shifts each byte by a pad made of key and IV and ends its output with the pad; the
  decipher holds the last byte back, shifts the others back, and fails in \<open>final\<close> when
  the byte it holds is not the pad.
\<close>

record toy_cipher =
  deciphering :: bool
  pad :: byte
  held :: "byte option"

definition toy_create :: "bool \<Rightarrow> string \<Rightarrow> buffer \<Rightarrow> buffer option \<Rightarrow> error + toy_cipher" where
  "toy_create dec a k v =
     (case v of
        None \<Rightarrow> Inl CryptoError
      | Some ivbuf \<Rightarrow>
          (if a = ''aes-256-cbc'' \<and> length k = 32 \<and> length ivbuf = 16
           then Inr \<lparr>deciphering = dec, pad = sum_list k + sum_list ivbuf, held = None\<rparr>
           else Inl CryptoError))"

definition toy_update :: "toy_cipher \<Rightarrow> buffer \<Rightarrow> buffer \<times> toy_cipher" where
  "toy_update c input =
     (if deciphering c
      then (let bytes = (case held c of None \<Rightarrow> [] | Some b \<Rightarrow> [b]) @ input
            in if bytes = [] then ([], c)
               else (map (\<lambda>x. x - pad c) (butlast bytes), c\<lparr>held := Some (last bytes)\<rparr>))
      else (map (\<lambda>x. x + pad c) input, c))"

definition toy_final :: "toy_cipher \<Rightarrow> error + buffer" where
  "toy_final c =
     (if deciphering c
      then (if held c = Some (pad c) then Inr [] else Inl CryptoError)
      else Inr [pad c])"

definition toy_crypto :: "toy_cipher crypto" where
  "toy_crypto =
     \<lparr>createCipheriv = toy_create False, createDecipheriv = toy_create True,
      update = toy_update, final = toy_final\<rparr>"

text \<open>
  A cipher that takes a key and an IV of any size, and otherwise works as the one above.
\<close>

definition lax_create :: "bool \<Rightarrow> string \<Rightarrow> buffer \<Rightarrow> buffer option \<Rightarrow> error + toy_cipher" where
  "lax_create dec a k v =
     Inr \<lparr>deciphering = dec,
          pad = sum_list k + (case v of None \<Rightarrow> 0 | Some ivbuf \<Rightarrow> sum_list ivbuf),
          held = None\<rparr>"

definition lax_crypto :: "toy_cipher crypto" where
  "lax_crypto =
     \<lparr>createCipheriv = lax_create False, createDecipheriv = lax_create True,
      update = toy_update, final = toy_final\<rparr>"

section \<open>Facts about the codecs of the platform\<close>

subsection \<open>The base64 codec\<close>

lemma index_of_nth:
  "distinct xs \<Longrightarrow> i < length xs \<Longrightarrow> index_of (xs ! i) xs = Some i"
proof (induction xs arbitrary: i)
  case Nil
  then show ?case by simp
next
  case (Cons y ys)
  show ?case
  proof (cases i)
    case 0
    then show ?thesis by simp
  next
    case (Suc j)
    with Cons.prems have "j < length ys" "distinct ys" "ys ! j \<noteq> y"
      by auto
    with Cons.IH [of j] Suc show ?thesis by auto
  qed
qed

lemma distinct_base64_alphabet: "distinct base64_alphabet"
  by (simp add: base64_alphabet_def)

lemma length_base64_alphabet: "length base64_alphabet = 64"
  by (simp add: base64_alphabet_def)

lemma base64_alphabet_excludes:
  "c \<in> set base64_alphabet \<Longrightarrow> c \<noteq> CHR ''='' \<and> c \<noteq> CHR '':'' \<and> c \<noteq> CHR ''-'' \<and> c \<noteq> CHR ''_''"
  by (auto simp: base64_alphabet_def)

lemma base64_char_in: "i < 64 \<Longrightarrow> base64_char i \<in> set base64_alphabet"
  by (simp add: base64_char_def length_base64_alphabet)

lemma unbase64_base64_char: "i < 64 \<Longrightarrow> unbase64 (base64_char i) = Some i"
  using base64_alphabet_excludes [OF base64_char_in, of i]
  by (simp add: unbase64_def base64_char_def index_of_nth distinct_base64_alphabet length_base64_alphabet)

lemma base64_char_not_pad: "i < 64 \<Longrightarrow> base64_char i \<noteq> CHR ''=''"
  using base64_alphabet_excludes [OF base64_char_in, of i] by simp

lemma base64_char_not_colon: "i < 64 \<Longrightarrow> base64_char i \<noteq> CHR '':''"
  using base64_alphabet_excludes [OF base64_char_in, of i] by simp

lemma byte_lt: "unat (a :: byte) < 256"
  using unsigned_less [of a] by simp

lemma sextet_bounds_nat:
  fixes x y z :: nat
  assumes "x < 256" "y < 256" "z < 256"
  shows "x div 4 < 64" "x mod 4 * 16 + y div 16 < 64"
    "y mod 16 * 4 + z div 64 < 64" "z mod 64 < 64"
    "x mod 4 * 16 < 64" "y mod 16 * 4 < 64"
proof -
  show "x div 4 < 64" using assms by simp
  have "x mod 4 < 4" "y div 16 < 16" "y mod 16 < 16" "z div 64 < 4"
    using assms by simp_all
  then show "x mod 4 * 16 + y div 16 < 64" "y mod 16 * 4 + z div 64 < 64"
    "x mod 4 * 16 < 64" "y mod 16 * 4 < 64"
    by linarith+
  show "z mod 64 < 64" by simp
qed

lemmas sextet_bounds = sextet_bounds_nat [OF byte_lt byte_lt byte_lt]

lemma sextet_join_nat:
  fixes x y z :: nat
  assumes "y < 256" "z < 256"
  shows "x div 4 * 4 + (x mod 4 * 16 + y div 16) div 16 = x"
    "(x mod 4 * 16 + y div 16) mod 16 * 16 + (y mod 16 * 4 + z div 64) div 4 = y"
    "(y mod 16 * 4 + z div 64) mod 4 * 64 + z mod 64 = z"
    "x div 4 * 4 + x mod 4 * 16 div 16 = x"
    "(x mod 4 * 16 + y div 16) mod 16 * 16 + y mod 16 * 4 div 4 = y"
proof -
  have y: "y div 16 < 16" and z: "z div 64 < 4"
    using assms by simp_all
  have hi: "(x mod 4 * 16 + y div 16) div 16 = x mod 4"
    and mid: "(x mod 4 * 16 + y div 16) mod 16 = y div 16"
    using y by simp_all
  have lo: "(y mod 16 * 4 + z div 64) div 4 = y mod 16"
    and last: "(y mod 16 * 4 + z div 64) mod 4 = z div 64"
    using z by simp_all
  show "x div 4 * 4 + (x mod 4 * 16 + y div 16) div 16 = x"
    unfolding hi by simp
  show "(x mod 4 * 16 + y div 16) mod 16 * 16 + (y mod 16 * 4 + z div 64) div 4 = y"
    unfolding mid lo by simp
  show "(y mod 16 * 4 + z div 64) mod 4 * 64 + z mod 64 = z"
    unfolding last by simp
  show "x div 4 * 4 + x mod 4 * 16 div 16 = x"
    by simp
  show "(x mod 4 * 16 + y div 16) mod 16 * 16 + y mod 16 * 4 div 4 = y"
    unfolding mid by simp
qed

lemma sextet_join:
  fixes a b c :: byte
  shows "(of_nat (unat a div 4 * 4 + (unat a mod 4 * 16 + unat b div 16) div 16) :: byte) = a"
    "(of_nat ((unat a mod 4 * 16 + unat b div 16) mod 16 * 16
        + (unat b mod 16 * 4 + unat c div 64) div 4) :: byte) = b"
    "(of_nat ((unat b mod 16 * 4 + unat c div 64) mod 4 * 64 + unat c mod 64) :: byte) = c"
    "(of_nat (unat a div 4 * 4 + unat a mod 4 * 16 div 16) :: byte) = a"
    "(of_nat ((unat a mod 4 * 16 + unat b div 16) mod 16 * 16 + unat b mod 16 * 4 div 4) :: byte) = b"
  unfolding sextet_join_nat [OF byte_lt byte_lt] by simp_all

lemma decode_char:
  assumes "i < 64"
  shows "List.map_filter unbase64 (takeWhile (\<lambda>c. c \<noteq> CHR ''='') (base64_char i # str))
    = i # List.map_filter unbase64 (takeWhile (\<lambda>c. c \<noteq> CHR ''='') str)"
  using assms by (simp add: map_filter_simps base64_char_not_pad unbase64_base64_char)

lemma decode_pad:
  "List.map_filter unbase64 (takeWhile (\<lambda>c. c \<noteq> CHR ''='') (CHR ''='' # str)) = []"
  by (simp add: map_filter_simps)

lemma colon_notin_toString_base64: "CHR '':'' \<notin> set (toString_base64 buf)"
proof (induction buf rule: toString_base64.induct)
  case 1
  show ?case by simp
next
  case (2 a)
  show ?case
    using base64_char_not_colon [OF sextet_bounds(1), of a]
      base64_char_not_colon [OF sextet_bounds(5), of a]
    by (auto simp: Let_def)
next
  case (3 a b)
  show ?case
    using base64_char_not_colon [OF sextet_bounds(1), of a]
      base64_char_not_colon [OF sextet_bounds(2), of a b]
      base64_char_not_colon [OF sextet_bounds(6), of b]
    by (auto simp: Let_def)
next
  case (4 a b c rest)
  then show ?case
    using base64_char_not_colon [OF sextet_bounds(1), of a]
      base64_char_not_colon [OF sextet_bounds(2), of a b]
      base64_char_not_colon [OF sextet_bounds(3), of b c]
      base64_char_not_colon [OF sextet_bounds(4), of c]
    by (auto simp: Let_def)
qed

lemma Buffer_from_base64_toString_base64: "Buffer_from_base64 (toString_base64 buf) = buf"
proof (induction buf rule: toString_base64.induct)
  case 1
  show ?case by (simp add: Buffer_from_base64_def map_filter_simps)
next
  case (2 a)
  show ?case
    unfolding Buffer_from_base64_def toString_base64.simps Let_def
    by (simp only: decode_char [OF sextet_bounds(1)] decode_char [OF sextet_bounds(5)]
        decode_pad sextets_to_bytes.simps sextet_join)
next
  case (3 a b)
  show ?case
    unfolding Buffer_from_base64_def toString_base64.simps Let_def
    by (simp only: decode_char [OF sextet_bounds(1)] decode_char [OF sextet_bounds(2)]
        decode_char [OF sextet_bounds(6)] decode_pad sextets_to_bytes.simps sextet_join)
next
  case (4 a b c rest)
  have "Buffer_from_base64 (toString_base64 (a # b # c # rest))
    = a # b # c # Buffer_from_base64 (toString_base64 rest)"
    unfolding Buffer_from_base64_def toString_base64.simps Let_def append_Cons append_Nil
    by (simp only: decode_char [OF sextet_bounds(1)] decode_char [OF sextet_bounds(2)]
        decode_char [OF sextet_bounds(3)] decode_char [OF sextet_bounds(4)]
        sextets_to_bytes.simps sextet_join)
  with 4 show ?case by simp
qed


subsection \<open>The hex codec\<close>

lemma distinct_hex_alphabet: "distinct hex_alphabet"
  by (simp add: hex_alphabet_def)

lemma unhex_hex_char: "i < 16 \<Longrightarrow> unhex (hex_char i) = Some i"
  by (simp add: unhex_def hex_char_def index_of_nth distinct_hex_alphabet hex_alphabet_def [THEN arg_cong, of length])

lemma Buffer_from_hex_toString_hex: "Buffer_from_hex (toString_hex buf) = buf"
proof (induction buf)
  case Nil
  show ?case by simp
next
  case (Cons a buf)
  have "unat a div 16 < 16" using byte_lt [of a] by simp
  moreover have "unat a mod 16 < 16" by simp
  ultimately show ?case
    using Cons by (simp add: unhex_hex_char)
qed

lemma toString_hex_eq_Nil: "toString_hex buf = [] \<longleftrightarrow> buf = []"
  by (cases buf) simp_all

subsection \<open>Splitting\<close>

lemma split_all_not_Nil: "split_all sep str \<noteq> []"
  by (induction str) (auto split: list.splits)

lemma split_all_no_sep: "sep \<notin> set str \<Longrightarrow> split_all sep str = [str]"
  by (induction str) auto

lemma split_all_first: "sep \<notin> set n \<Longrightarrow> split_all sep (n @ sep # r) = n # split_all sep r"
  by (induction n) (auto split: list.splits)

lemma split_no_colon:
  "CHR '':'' \<notin> set str \<Longrightarrow> split str (CHR '':'') 2 = [str]"
  by (simp add: split_def split_all_no_sep)

lemma split_two:
  assumes "CHR '':'' \<notin> set n" "CHR '':'' \<notin> set c"
  shows "split (n @ '':'' @ c) (CHR '':'') 2 = [n, c]"
  using assms by (simp add: split_def split_all_first split_all_no_sep)

subsection \<open>The small collaborators keep the contracts\<close>

lemma toy_ecc_round_trip: "aead_round_trip toy_ecc toy_pair"
  by (simp add: aead_round_trip_def toy_ecc_def toy_pair_def toy_encrypt_def toy_decrypt_def
      toy_pad_def comp_def mult.commute mult.left_commute)

lemma toy_ecc_nonce_length: "length (fst (random32ByteBuffer toy_ecc g)) = 32"
  by (simp add: toy_ecc_def randomBytes_def)

lemma digit_json_serializable: "serializable digit_json 7"
  by (simp add: serializable_def digit_json_def digit_stringify_def digit_parse_def)

lemma toy_crypto_round_trip: "cipher_round_trip toy_crypto ''aes-256-cbc'' 32 16"
  by (simp add: cipher_round_trip_def toy_crypto_def toy_create_def toy_update_def
      toy_final_def Let_def butlast_append comp_def)

lemma toy_crypto_rejects: "rejects_wrong_sizes toy_crypto ''aes-256-cbc'' 32 16"
  by (auto simp: rejects_wrong_sizes_def toy_crypto_def toy_create_def iv_length_def
      split: option.splits)

lemma toy_crypto_default_round_trip:
  "cipher_round_trip toy_crypto CONTENT_CIPHER_ALGORITHM
     CONTENT_CIPHER_ALGORITHM_KEY_SIZE CONTENT_CIPHER_ALGORITHM_IV_SIZE"
  using toy_crypto_round_trip
  by (simp add: CONTENT_CIPHER_ALGORITHM_def CONTENT_CIPHER_ALGORITHM_KEY_SIZE_def
      CONTENT_CIPHER_ALGORITHM_IV_SIZE_def)


section \<open>The envelope of an object\<close>

lemma at_index_simps:
  "at_index [x] (Suc 0) = None" "at_index (x # y # ys) (Suc 0) = Some y"
    "at_index (x # xs) 0 = Some x"
  by (simp_all add: at_index_def)

lemma split_three:
  assumes "CHR '':'' \<notin> set n" "CHR '':'' \<notin> set c"
  shows "split (n @ '':'' @ c @ '':'' @ r) (CHR '':'') 2 = [n, c]"
proof -
  have "split_all (CHR '':'') (n @ CHR '':'' # c @ CHR '':'' # r)
    = n # c # split_all (CHR '':'') r"
    using assms by (simp add: split_all_first)
  then show ?thesis by (simp add: split_def)
qed

lemma decrypt_object_parts:
  assumes "split str (CHR '':'') 2 = [n, c]"
  shows "decrypt_object E J str pub priv
    = (case decrypt_with_checksum E priv pub n (Buffer_from_base64 c) of
         Inl e \<Rightarrow> Inl e
       | Inr plainbuf \<Rightarrow> JSON_parse J (utf8_decode J plainbuf))"
  using assms by (simp add: decrypt_object_def Buffer_from_def at_index_simps Let_def)

lemma decrypt_object_no_colon:
  assumes "CHR '':'' \<notin> set str"
  shows "decrypt_object E J str pub priv = Inl TypeError"
  using assms by (simp add: decrypt_object_def split_no_colon Buffer_from_def at_index_simps Let_def)

text \<open>
  Claim C1. An object that JSON can carry comes back from \<open>decrypt_object\<close> after
  \<open>encrypt_object\<close>, for two key pairs, when the primitive keeps its round trip:
  \<open>encrypt_object\<close> returns an envelope, and \<open>decrypt_object\<close> returns the object on it.
\<close>

theorem decrypt_encrypt_object:
  assumes "aead_round_trip E pair"
    and "pair priv_s pub_s" and "pair priv_o pub_o"
    and "serializable J obj"
  shows "\<exists>envelope. fst (encrypt_object E J g obj priv_s pub_o) = Inr envelope
    \<and> decrypt_object E J envelope pub_s priv_o = Inr obj"
proof -
  obtain noncebuf g' where r: "random32ByteBuffer E g = (noncebuf, g')"
    by (cases "random32ByteBuffer E g")
  from assms(4) obtain jtext where t: "JSON_stringify J obj = Inr jtext"
    "utf8_decode J (utf8_encode J jtext) = jtext" "JSON_parse J jtext = Inr obj"
    by (auto simp: serializable_def)
  define nonce where "nonce = toString_base64 noncebuf"
  define cipherbuf where "cipherbuf = encrypt_with_checksum E priv_s pub_o nonce (utf8_encode J jtext)"
  define envelope where "envelope = nonce @ '':'' @ toString_base64 cipherbuf"
  have enc: "fst (encrypt_object E J g obj priv_s pub_o) = Inr envelope"
    by (simp add: encrypt_object_def r t Let_def envelope_def cipherbuf_def nonce_def)
  have "split envelope (CHR '':'') 2 = [nonce, toString_base64 cipherbuf]"
    unfolding envelope_def nonce_def
    by (rule split_two) (rule colon_notin_toString_base64)+
  from decrypt_object_parts [OF this]
  have "decrypt_object E J envelope pub_s priv_o
    = (case decrypt_with_checksum E priv_o pub_s nonce cipherbuf of
         Inl e \<Rightarrow> Inl e
       | Inr plainbuf \<Rightarrow> JSON_parse J (utf8_decode J plainbuf))"
    by (simp add: Buffer_from_base64_toString_base64)
  also have "decrypt_with_checksum E priv_o pub_s nonce cipherbuf = Inr (utf8_encode J jtext)"
    using assms(1-3) by (simp add: aead_round_trip_def cipherbuf_def)
  finally have "decrypt_object E J envelope pub_s priv_o = Inr obj"
    by (simp add: t)
  with enc show ?thesis by blast
qed

text \<open>
  The round trip of the number 7, with the small primitive.
\<close>

theorem decrypt_encrypt_object_witness:
  "aead_round_trip toy_ecc toy_pair \<and> toy_pair 1 3 \<and> toy_pair 2 6
   \<and> serializable digit_json 7
   \<and> (\<exists>envelope. fst (encrypt_object toy_ecc digit_json (\<lambda>i. 0) 7 1 6) = Inr envelope
        \<and> decrypt_object toy_ecc digit_json envelope 3 2 = Inr 7)"
proof -
  have p: "toy_pair 1 3" "toy_pair 2 6"
    by (simp_all add: toy_pair_def)
  show ?thesis
    using decrypt_encrypt_object [OF toy_ecc_round_trip p digit_json_serializable, of "\<lambda>i. 0"]
      toy_ecc_round_trip p digit_json_serializable
    by simp
qed

text \<open>
  Claim C6 has the ciphertext segment be all that follows the first \<open>:\<close>. On the
  envelope \<open>bm9uY2U=:QUJD:REVG\<close> the pieces of \<open>split\<close> are \<open>bm9uY2U=\<close> and
  \<open>QUJD\<close>: the primitive is given the bytes \<open>41 42 43\<close> of \<open>QUJD\<close>, where all that
  follows the first \<open>:\<close> would decode to \<open>41 42 43 44 45 46\<close>.
\<close>

theorem decrypt_object_split_counterexample:
  "split ''bm9uY2U=:QUJD:REVG'' (CHR '':'') 2 = [''bm9uY2U='', ''QUJD'']
   \<and> decrypt_object echo_ecc echo_json ''bm9uY2U=:QUJD:REVG'' () () = Inr [0x41, 0x42, 0x43]
   \<and> Buffer_from_base64 ''QUJD:REVG'' = [0x41, 0x42, 0x43, 0x44, 0x45, 0x46]"
  by (simp add: decrypt_object_def split_def Let_def at_index_def Buffer_from_def
      Buffer_from_base64_def map_filter_simps unbase64_def base64_alphabet_def
      echo_ecc_def echo_json_def)

text \<open>
  Claim C6, amended. The nonce segment is what stands before the first \<open>:\<close>, and the
  ciphertext segment is what stands between the first \<open>:\<close> and the second, or the end
  of the string when there is no second; what follows a second \<open>:\<close> is dropped.
\<close>

theorem decrypt_object_segments:
  assumes "CHR '':'' \<notin> set n" and "CHR '':'' \<notin> set c"
  shows "decrypt_object E J (n @ '':'' @ c) pub priv
      = (case decrypt_with_checksum E priv pub n (Buffer_from_base64 c) of
           Inl e \<Rightarrow> Inl e
         | Inr plainbuf \<Rightarrow> JSON_parse J (utf8_decode J plainbuf))
    \<and> decrypt_object E J (n @ '':'' @ c @ '':'' @ r) pub priv
      = decrypt_object E J (n @ '':'' @ c) pub priv"
proof -
  have two: "decrypt_object E J (n @ '':'' @ c) pub priv
      = (case decrypt_with_checksum E priv pub n (Buffer_from_base64 c) of
           Inl e \<Rightarrow> Inl e
         | Inr plainbuf \<Rightarrow> JSON_parse J (utf8_decode J plainbuf))"
    by (rule decrypt_object_parts [OF split_two [OF assms]])
  have "decrypt_object E J (n @ '':'' @ c @ '':'' @ r) pub priv
      = (case decrypt_with_checksum E priv pub n (Buffer_from_base64 c) of
           Inl e \<Rightarrow> Inl e
         | Inr plainbuf \<Rightarrow> JSON_parse J (utf8_decode J plainbuf))"
    by (rule decrypt_object_parts [OF split_three [OF assms]])
  with two show ?thesis by simp
qed

text \<open>
  An envelope of the small primitive, alone and with a third segment.
\<close>

theorem decrypt_object_segments_witness:
  "CHR '':'' \<notin> set ''AQI='' \<and> CHR '':'' \<notin> set ''QUE=''
   \<and> decrypt_object toy_ecc digit_json ''AQI=:QUE='' 3 2 = Inr 7
   \<and> decrypt_object toy_ecc digit_json ''AQI=:QUE=:QUE='' 3 2 = Inr 7"
proof -
  have c: "CHR '':'' \<notin> set ''AQI=''" "CHR '':'' \<notin> set ''QUE=''"
    by simp_all
  have "Buffer_from_base64 ''QUE='' = [65, 65]"
    by (simp add: Buffer_from_base64_def map_filter_simps unbase64_def base64_alphabet_def)
  with decrypt_object_segments [OF c, of toy_ecc digit_json 3 2 "''QUE=''"] c
  show ?thesis
    by (simp add: toy_ecc_def toy_decrypt_def toy_pad_def digit_json_def digit_parse_def)
qed

section \<open>The envelope of a buffer\<close>

lemma decrypt_buffer_envelope:
  assumes "length noncebuf < 256"
  shows "decrypt_buffer E (of_nat (length noncebuf) # noncebuf @ cipherbuf) pub priv
    = decrypt_with_checksum E priv pub (toString_base64 noncebuf) cipherbuf"
proof -
  have "unat (of_nat (length noncebuf) :: byte) = length noncebuf"
    using assms by (simp add: unat_of_nat)
  then show ?thesis
    by (simp add: decrypt_buffer_def slice_def slice_from_def at_index_def)
qed

text \<open>
  Claim C2. A buffer, the empty one included, comes back from \<open>decrypt_buffer\<close> after
  \<open>encrypt_buffer\<close>, for two key pairs, when the primitive keeps its round trip and
  \<open>key.random32ByteBuffer()\<close> returns its 32 bytes.
\<close>

theorem decrypt_encrypt_buffer:
  assumes "aead_round_trip E pair"
    and "pair priv_s pub_s" and "pair priv_o pub_o"
    and "length (fst (random32ByteBuffer E g)) = 32"
  shows "decrypt_buffer E (fst (encrypt_buffer E g b priv_s pub_o)) pub_s priv_o = Inr b"
proof -
  obtain noncebuf g' where r: "random32ByteBuffer E g = (noncebuf, g')"
    by (cases "random32ByteBuffer E g")
  with assms(4) have "length noncebuf < 256" by simp
  from decrypt_buffer_envelope [OF this]
  have "decrypt_buffer E (fst (encrypt_buffer E g b priv_s pub_o)) pub_s priv_o
    = decrypt_with_checksum E priv_o pub_s (toString_base64 noncebuf)
        (encrypt_with_checksum E priv_s pub_o (toString_base64 noncebuf) b)"
    by (simp add: encrypt_buffer_def r Let_def)
  also have "\<dots> = Inr b"
    using assms(1-3) by (simp add: aead_round_trip_def)
  finally show ?thesis .
qed

text \<open>
  The round trip on the empty buffer, with the small primitive.
\<close>

theorem decrypt_encrypt_buffer_witness:
  "aead_round_trip toy_ecc toy_pair \<and> toy_pair 1 3 \<and> toy_pair 2 6
   \<and> length (fst (random32ByteBuffer toy_ecc (\<lambda>i. of_nat i))) = 32
   \<and> decrypt_buffer toy_ecc (fst (encrypt_buffer toy_ecc (\<lambda>i. of_nat i) [] 1 6)) 3 2 = Inr []"
proof -
  have p: "toy_pair 1 3" "toy_pair 2 6"
    by (simp_all add: toy_pair_def)
  show ?thesis
    using decrypt_encrypt_buffer [OF toy_ecc_round_trip p toy_ecc_nonce_length, of "\<lambda>i. of_nat i" "[]"]
      toy_ecc_round_trip p toy_ecc_nonce_length
    by simp
qed

text \<open>
  Claim C5. The envelope \<open>encrypt_buffer\<close> returns is the byte of the nonce's length, the
  nonce, then the ciphertext; with the nonce \<open>01 02\<close> and the ciphertext \<open>AA BB CC\<close> it is
  \<open>02 01 02 AA BB CC\<close>.
\<close>

theorem encrypt_buffer_layout:
  "fst (encrypt_buffer E g buf priv pub)
     = (let noncebuf = fst (random32ByteBuffer E g);
            cipherbuf = encrypt_with_checksum E priv pub (toString_base64 noncebuf) buf
        in of_nat (length noncebuf) # noncebuf @ cipherbuf)
   \<and> fst (encrypt_buffer (fixed_ecc [0x01, 0x02] [0xAA, 0xBB, 0xCC]) g' buf' () ())
     = [0x02, 0x01, 0x02, 0xAA, 0xBB, 0xCC]"
  by (simp add: encrypt_buffer_def fixed_ecc_def Let_def split: prod.splits)

text \<open>
  Claim C10. \<open>decrypt_buffer\<close> reads every buffer without a check of its own: the empty
  one, and one whose first byte announces more nonce bytes than follow, in which case the
  nonce is what follows and the ciphertext is empty. What it returns is what the primitive
  returns on the nonce and the ciphertext read that way.
\<close>

theorem decrypt_buffer_total:
  "decrypt_buffer E [] pub priv = decrypt_with_checksum E priv pub [] []
   \<and> decrypt_buffer E (n # rest) pub priv
     = decrypt_with_checksum E priv pub
         (toString_base64 (take (unat n) rest)) (drop (unat n) rest)
   \<and> (length rest < unat n \<longrightarrow>
        decrypt_buffer E (n # rest) pub priv
          = decrypt_with_checksum E priv pub (toString_base64 rest) [])"
  by (simp add: decrypt_buffer_def slice_def slice_from_def at_index_def)

text \<open>
  A length byte of 5 before two bytes: the primitive gets the two bytes as the nonce.
\<close>

theorem decrypt_buffer_total_witness:
  "length [1, 2 :: byte] < unat (5 :: byte)
   \<and> decrypt_buffer toy_ecc [5, 1, 2] 3 2 = toy_decrypt 2 3 ''AQI='' []
   \<and> decrypt_buffer toy_ecc [5, 1, 2] 3 2 = Inl AesError"
  using decrypt_buffer_total [of toy_ecc 3 2 5 "[1, 2]"]
  by (simp add: toy_ecc_def toy_decrypt_def base64_char_def base64_alphabet_def)

section \<open>Envelopes that are not well formed, and failures of the primitive\<close>

text \<open>
  Claim C7 has every envelope that does not parse fail. The envelope \<open>AQI=:QUE=\<close>
  of the small primitive carries the number 7; with a third segment after it, and with
  characters in its ciphertext segment that are not base64, \<open>decrypt_object\<close> still
  returns 7.
\<close>

theorem malformed_envelope_accepted_counterexample:
  "decrypt_object toy_ecc digit_json ''AQI=:QUE='' 3 2 = Inr 7
   \<and> decrypt_object toy_ecc digit_json ''AQI=:QUE=:junk'' 3 2 = Inr 7
   \<and> decrypt_object toy_ecc digit_json ''AQI=:Q!U*E='' 3 2 = Inr 7"
  by (simp add: decrypt_object_def split_def Let_def at_index_def Buffer_from_def
      Buffer_from_base64_def map_filter_simps unbase64_def base64_alphabet_def
      toy_ecc_def toy_decrypt_def toy_pad_def digit_json_def digit_parse_def)

text \<open>
  Claim C7, amended. The codec checks no wire format. A string without \<open>:\<close> makes
  \<open>decrypt_object\<close> throw a \<open>TypeError\<close>; and whenever the primitive fails on the nonce
  and the ciphertext that \<open>decrypt_object\<close> or \<open>decrypt_buffer\<close> reads from the envelope,
  its error reaches the caller and nothing is returned.
\<close>

theorem decrypt_failures_surface:
  "(CHR '':'' \<notin> set str \<longrightarrow> decrypt_object E J str pub priv = Inl TypeError)
   \<and> (split str (CHR '':'') 2 = [n, c]
        \<and> decrypt_with_checksum E priv pub n (Buffer_from_base64 c) = Inl e
      \<longrightarrow> decrypt_object E J str pub priv = Inl e)
   \<and> (decrypt_with_checksum E priv pub [] [] = Inl e
      \<longrightarrow> decrypt_buffer E [] pub priv = Inl e)
   \<and> (decrypt_with_checksum E priv pub
          (toString_base64 (take (unat len) rest)) (drop (unat len) rest) = Inl e
      \<longrightarrow> decrypt_buffer E (len # rest) pub priv = Inl e)"
proof -
  have "decrypt_object E J str pub priv = Inl e"
    if "split str (CHR '':'') 2 = [n, c]"
      and "decrypt_with_checksum E priv pub n (Buffer_from_base64 c) = Inl e"
    using decrypt_object_parts [OF that(1), of E J pub priv] that(2) by simp
  then show ?thesis
    by (simp add: decrypt_object_no_colon decrypt_buffer_def slice_def slice_from_def
        at_index_def)
qed

text \<open>
  A string without \<open>:\<close>, an envelope with a changed ciphertext, the empty buffer and
  a buffer envelope with a changed ciphertext, with the small primitive.
\<close>

theorem decrypt_failures_surface_witness:
  "CHR '':'' \<notin> set ''AQI=QUE=''
   \<and> decrypt_object toy_ecc digit_json ''AQI=QUE='' 3 2 = Inl TypeError
   \<and> split ''AQI=:QUI='' (CHR '':'') 2 = [''AQI='', ''QUI='']
   \<and> toy_decrypt 2 3 ''AQI='' (Buffer_from_base64 ''QUI='') = Inl AesError
   \<and> decrypt_object toy_ecc digit_json ''AQI=:QUI='' 3 2 = Inl AesError
   \<and> toy_decrypt 2 3 [] [] = Inl AesError
   \<and> decrypt_buffer toy_ecc [] 3 2 = Inl AesError
   \<and> toy_decrypt 2 3 (toString_base64 [1, 2]) [65, 66] = Inl AesError
   \<and> decrypt_buffer toy_ecc [2, 1, 2, 65, 66] 3 2 = Inl AesError"
proof -
  have a: "CHR '':'' \<notin> set ''AQI=QUE=''"
    by simp
  have b: "split ''AQI=:QUI='' (CHR '':'') 2 = [''AQI='', ''QUI='']"
    by (simp add: split_def)
  have c: "decrypt_with_checksum toy_ecc 2 3 ''AQI='' (Buffer_from_base64 ''QUI='') = Inl AesError"
    by (simp add: Buffer_from_base64_def map_filter_simps unbase64_def base64_alphabet_def
        toy_ecc_def toy_decrypt_def toy_pad_def)
  have d: "decrypt_with_checksum toy_ecc 2 3 [] [] = Inl AesError"
    by (simp add: toy_ecc_def toy_decrypt_def)
  have e: "decrypt_with_checksum toy_ecc 2 3
      (toString_base64 (take (unat (2 :: byte)) [1, 2, 65, 66]))
      (drop (unat (2 :: byte)) [1, 2, 65, 66]) = Inl AesError"
    by (simp add: toy_ecc_def toy_decrypt_def toy_pad_def)
  have f: "toy_decrypt 2 3 (toString_base64 [1, 2]) [65, 66] = Inl AesError"
    by (simp add: toy_decrypt_def toy_pad_def)
  from decrypt_failures_surface [where str = "''AQI=QUE=''" and E = toy_ecc
      and J = digit_json and pub = 3 and priv = 2 and e = AesError]
    decrypt_failures_surface [where str = "''AQI=:QUI=''" and E = toy_ecc
      and J = digit_json and pub = 3 and priv = 2 and n = "''AQI=''" and c = "''QUI=''"
      and e = AesError and len = 2 and rest = "[1, 2, 65, 66]"]
    a b c d e f
  show ?thesis
    by (simp add: toy_ecc_def)
qed

section \<open>Content keys and the content cipher: the claims\<close>


text \<open>
  Claim C3, at the buffer \<open>68 69\<close>. With the key of \<open>make_content_key_noencrypt\<close> the
  transform is a \<open>PassThrough\<close>, and \<open>crypto_content_transform\<close> calls its method
  \<open>update\<close>, which it has not: \<open>encrypt_content\<close> and \<open>decrypt_content\<close> throw a
  \<open>TypeError\<close> where the claim has them return the buffer.
\<close>

theorem noencrypt_content_throws:
  "encrypt_content api [0x68, 0x69] make_content_key_noencrypt = Inl TypeError
   \<and> decrypt_content api [0x68, 0x69] make_content_key_noencrypt = Inl TypeError"
  by (simp add: encrypt_content_def decrypt_content_def make_content_cipher_stream_def
      make_content_decipher_stream_def make_content_key_noencrypt_def
      crypto_content_transform_def transform_update_def)

lemma make_content_key_bytes:
  "fst (make_content_key g)
    = \<lparr>algo = CONTENT_CIPHER_ALGORITHM,
       key = Some (toString_hex (fst (randomBytes CONTENT_CIPHER_ALGORITHM_KEY_SIZE g))),
       iv = Some (toString_hex (fst (randomBytes CONTENT_CIPHER_ALGORITHM_IV_SIZE
              (snd (randomBytes CONTENT_CIPHER_ALGORITHM_KEY_SIZE g)))))\<rparr>"
  by (simp add: make_content_key_def randomBytes_def
      CONTENT_CIPHER_ALGORITHM_KEY_SIZE_def CONTENT_CIPHER_ALGORITHM_IV_SIZE_def)

lemma length_randomBytes: "length (fst (randomBytes n g)) = n"
  by (simp add: randomBytes_def)

lemma real_key_streams:
  assumes "a \<noteq> CONTENT_CIPHER_ALGORITHM_NOENCRYPT" and "v \<noteq> []"
  shows "make_content_cipher_stream api \<lparr>algo = a, key = Some (toString_hex k),
        iv = Some (toString_hex v)\<rparr>
      = map_sum id Cipheriv (createCipheriv api a k (Some v))"
    and "make_content_decipher_stream api \<lparr>algo = a, key = Some (toString_hex k),
        iv = Some (toString_hex v)\<rparr>
      = map_sum id Cipheriv (createDecipheriv api a k (Some v))"
  using assms
  by (simp_all add: make_content_cipher_stream_def make_content_decipher_stream_def
      Buffer_from_def iv_argument_def Buffer_from_hex_toString_hex toString_hex_eq_Nil
      split: sum.splits)

lemma crypto_content_transform_Cipheriv:
  "crypto_content_transform api (Cipheriv c) input
    = (case update api c input of
         (buf_main, c') \<Rightarrow> map_sum id (\<lambda>buf_final. buf_main @ buf_final) (final api c'))"
  by (simp add: crypto_content_transform_def transform_update_def transform_final_def
      split: prod.splits sum.splits)

lemma sum_list_const_one: "sum_list (map (\<lambda>i. 1 :: byte) [0..<n]) = of_nat n"
  by (induction n) simp_all

text \<open>
  Claim C4. With a key of \<open>make_content_key\<close>, whose key and IV are the 32 and the 16
  bytes drawn, and a platform cipher that keeps its round trip for the default algorithm:
  \<open>encrypt_content\<close> returns what \<open>update\<close> on the whole buffer and then \<open>final\<close>
  return, of the object \<open>createCipheriv\<close> built from that key and IV; \<open>decrypt_content\<close>
  on that ciphertext returns what \<open>update\<close> and then \<open>final\<close> return, of the object
  \<open>createDecipheriv\<close> built from them; and that is the plain buffer.
\<close>

theorem decrypt_encrypt_content:
  assumes "cipher_round_trip api CONTENT_CIPHER_ALGORITHM
      CONTENT_CIPHER_ALGORITHM_KEY_SIZE CONTENT_CIPHER_ALGORITHM_IV_SIZE"
  shows "let k = fst (randomBytes CONTENT_CIPHER_ALGORITHM_KEY_SIZE g);
             v = fst (randomBytes CONTENT_CIPHER_ALGORITHM_IV_SIZE
                   (snd (randomBytes CONTENT_CIPHER_ALGORITHM_KEY_SIZE g)));
             content_key = fst (make_content_key g)
         in \<exists>c c_main c' c_final d d_main d' d_final.
              createCipheriv api CONTENT_CIPHER_ALGORITHM k (Some v) = Inr c
            \<and> update api c b = (c_main, c') \<and> final api c' = Inr c_final
            \<and> encrypt_content api b content_key = Inr (c_main @ c_final)
            \<and> createDecipheriv api CONTENT_CIPHER_ALGORITHM k (Some v) = Inr d
            \<and> update api d (c_main @ c_final) = (d_main, d') \<and> final api d' = Inr d_final
            \<and> decrypt_content api (c_main @ c_final) content_key = Inr (d_main @ d_final)
            \<and> d_main @ d_final = b"
proof -
  define k where "k = fst (randomBytes CONTENT_CIPHER_ALGORITHM_KEY_SIZE g)"
  define v where "v = fst (randomBytes CONTENT_CIPHER_ALGORITHM_IV_SIZE
      (snd (randomBytes CONTENT_CIPHER_ALGORITHM_KEY_SIZE g)))"
  have len: "length k = CONTENT_CIPHER_ALGORITHM_KEY_SIZE"
      "length v = CONTENT_CIPHER_ALGORITHM_IV_SIZE"
    by (simp_all add: k_def v_def length_randomBytes)
  have ck: "fst (make_content_key g)
      = \<lparr>algo = CONTENT_CIPHER_ALGORITHM, key = Some (toString_hex k),
         iv = Some (toString_hex v)\<rparr>"
    unfolding k_def v_def by (rule make_content_key_bytes)
  have real: "CONTENT_CIPHER_ALGORITHM \<noteq> CONTENT_CIPHER_ALGORITHM_NOENCRYPT"
    by (simp add: CONTENT_CIPHER_ALGORITHM_def CONTENT_CIPHER_ALGORITHM_NOENCRYPT_def)
  have v: "v \<noteq> []"
    using len(2) by (auto simp: CONTENT_CIPHER_ALGORITHM_IV_SIZE_def)
  from assms len obtain c d c_main c' c_final d_main d' d_final where
    rt: "createCipheriv api CONTENT_CIPHER_ALGORITHM k (Some v) = Inr c"
      "update api c b = (c_main, c')" "final api c' = Inr c_final"
      "createDecipheriv api CONTENT_CIPHER_ALGORITHM k (Some v) = Inr d"
      "update api d (c_main @ c_final) = (d_main, d')" "final api d' = Inr d_final"
      "d_main @ d_final = b"
    unfolding cipher_round_trip_def by blast
  have "encrypt_content api b (fst (make_content_key g)) = Inr (c_main @ c_final)"
    by (simp add: encrypt_content_def ck real_key_streams [OF real v] rt
        crypto_content_transform_Cipheriv)
  moreover have "decrypt_content api (c_main @ c_final) (fst (make_content_key g))
      = Inr (d_main @ d_final)"
    by (simp add: decrypt_content_def ck real_key_streams [OF real v] rt
        crypto_content_transform_Cipheriv)
  ultimately have "\<exists>c c_main c' c_final d d_main d' d_final.
              createCipheriv api CONTENT_CIPHER_ALGORITHM k (Some v) = Inr c
            \<and> update api c b = (c_main, c') \<and> final api c' = Inr c_final
            \<and> encrypt_content api b (fst (make_content_key g)) = Inr (c_main @ c_final)
            \<and> createDecipheriv api CONTENT_CIPHER_ALGORITHM k (Some v) = Inr d
            \<and> update api d (c_main @ c_final) = (d_main, d') \<and> final api d' = Inr d_final
            \<and> decrypt_content api (c_main @ c_final) (fst (make_content_key g))
                = Inr (d_main @ d_final)
            \<and> d_main @ d_final = b"
    using rt by blast
  then show ?thesis
    unfolding Let_def k_def v_def .
qed

text \<open>
  The buffer \<open>01 02 03\<close> with the small cipher and a random source of ones: the pad is
  48, the ciphertext is the three bytes shifted and then the pad that \<open>final\<close> adds.
\<close>

theorem decrypt_encrypt_content_witness:
  "cipher_round_trip toy_crypto CONTENT_CIPHER_ALGORITHM
     CONTENT_CIPHER_ALGORITHM_KEY_SIZE CONTENT_CIPHER_ALGORITHM_IV_SIZE
   \<and> encrypt_content toy_crypto [1, 2, 3] (fst (make_content_key (\<lambda>i. 1)))
       = Inr [49, 50, 51, 48]
   \<and> decrypt_content toy_crypto [49, 50, 51, 48] (fst (make_content_key (\<lambda>i. 1)))
       = Inr [1, 2, 3]"
  using decrypt_encrypt_content [OF toy_crypto_default_round_trip, of "\<lambda>i. 1" "[1, 2, 3]"]
    toy_crypto_default_round_trip
  by (auto simp: Let_def toy_crypto_def toy_create_def toy_update_def toy_final_def
      randomBytes_def CONTENT_CIPHER_ALGORITHM_def CONTENT_CIPHER_ALGORITHM_KEY_SIZE_def
      CONTENT_CIPHER_ALGORITHM_IV_SIZE_def sum_list_const_one)

text \<open>
  Claim C8 has the module fail with a \<open>KeyFormatError\<close> on a key of the wrong size.
  The module has no check of a size and no error of its own. With a key of 2 bytes and an
  IV of 1 byte for \<open>aes-256-cbc\<close>: on a platform whose constructor takes them, the
  transform is built and \<open>encrypt_content\<close> returns a ciphertext; on a platform whose
  constructor throws, the error is the constructor's. With a \<open>null\<close> key the error is
  the \<open>TypeError\<close> of \<open>Buffer.from\<close>.
\<close>

theorem no_size_check_counterexample:
  "length (Buffer_from_hex ''00ff'') = 2
   \<and> make_content_cipher_stream lax_crypto
       \<lparr>algo = ''aes-256-cbc'', key = Some ''00ff'', iv = Some ''01''\<rparr>
     = Inr (Cipheriv \<lparr>deciphering = False, pad = 0, held = None\<rparr>)
   \<and> encrypt_content lax_crypto [1, 2, 3]
       \<lparr>algo = ''aes-256-cbc'', key = Some ''00ff'', iv = Some ''01''\<rparr>
     = Inr [1, 2, 3, 0]
   \<and> createCipheriv toy_crypto ''aes-256-cbc'' [0x00, 0xff] (Some [0x01]) = Inl CryptoError
   \<and> make_content_cipher_stream toy_crypto
       \<lparr>algo = ''aes-256-cbc'', key = Some ''00ff'', iv = Some ''01''\<rparr>
     = Inl CryptoError
   \<and> make_content_cipher_stream toy_crypto
       \<lparr>algo = ''aes-256-cbc'', key = None, iv = None\<rparr>
     = Inl TypeError"
  by (simp add: make_content_cipher_stream_def encrypt_content_def
      crypto_content_transform_def transform_update_def transform_final_def
      CONTENT_CIPHER_ALGORITHM_NOENCRYPT_def Buffer_from_def iv_argument_def
      unhex_def hex_alphabet_def lax_crypto_def lax_create_def toy_crypto_def
      toy_create_def toy_update_def toy_final_def)

lemma content_stream_constructors:
  assumes "algo content_key \<noteq> CONTENT_CIPHER_ALGORITHM_NOENCRYPT"
  shows "make_content_cipher_stream api content_key
      = (case key content_key of
           None \<Rightarrow> Inl TypeError
         | Some str \<Rightarrow>
             map_sum id Cipheriv
               (createCipheriv api (algo content_key) (Buffer_from_hex str)
                  (iv_argument content_key)))"
    and "make_content_decipher_stream api content_key
      = (case key content_key of
           None \<Rightarrow> Inl TypeError
         | Some str \<Rightarrow>
             map_sum id Cipheriv
               (createDecipheriv api (algo content_key) (Buffer_from_hex str)
                  (iv_argument content_key)))"
  using assms
  by (simp_all add: make_content_cipher_stream_def make_content_decipher_stream_def
      Buffer_from_def split: option.splits sum.splits)

lemma content_fails_as_stream:
  "make_content_cipher_stream api content_key = Inl e
    \<Longrightarrow> encrypt_content api input content_key = Inl e"
  "make_content_decipher_stream api content_key = Inl e
    \<Longrightarrow> decrypt_content api input content_key = Inl e"
  by (simp_all add: encrypt_content_def decrypt_content_def)

lemma rejected_sizes_fail:
  assumes "algo content_key \<noteq> CONTENT_CIPHER_ALGORITHM_NOENCRYPT"
    and "rejects_wrong_sizes api (algo content_key) key_size iv_size"
    and "case key content_key of
           None \<Rightarrow> True
         | Some str \<Rightarrow> length (Buffer_from_hex str) \<noteq> key_size
             \<or> iv_length (iv_argument content_key) \<noteq> iv_size"
  shows "isl (make_content_cipher_stream api content_key)"
    and "isl (make_content_decipher_stream api content_key)"
proof -
  show "isl (make_content_cipher_stream api content_key)"
  proof (cases "key content_key")
    case None
    then show ?thesis
      by (simp add: content_stream_constructors [OF assms(1)])
  next
    case (Some str)
    with assms(3) have "length (Buffer_from_hex str) \<noteq> key_size
        \<or> iv_length (iv_argument content_key) \<noteq> iv_size"
      by simp
    with assms(2) have "isl (createCipheriv api (algo content_key) (Buffer_from_hex str)
          (iv_argument content_key))"
      unfolding rejects_wrong_sizes_def by blast
    with Some show ?thesis
      by (auto simp: content_stream_constructors [OF assms(1)] isl_def)
  qed
  show "isl (make_content_decipher_stream api content_key)"
  proof (cases "key content_key")
    case None
    then show ?thesis
      by (simp add: content_stream_constructors [OF assms(1)])
  next
    case (Some str)
    with assms(3) have "length (Buffer_from_hex str) \<noteq> key_size
        \<or> iv_length (iv_argument content_key) \<noteq> iv_size"
      by simp
    with assms(2) have "isl (createDecipheriv api (algo content_key) (Buffer_from_hex str)
          (iv_argument content_key))"
      unfolding rejects_wrong_sizes_def by blast
    with Some show ?thesis
      by (auto simp: content_stream_constructors [OF assms(1)] isl_def)
  qed
qed

text \<open>
  Claim C8, amended. For an algorithm that is not \<open>noencrypt\<close> the module checks no
  size: \<open>make_content_cipher_stream\<close> and \<open>make_content_decipher_stream\<close> hand the
  decoded key and the decoded IV (\<open>null\<close> for a \<open>null\<close> or empty IV) to the platform's
  constructor and return what it returns, and throw a \<open>TypeError\<close> on a \<open>null\<close> key.
  When building a transform fails, \<open>encrypt_content\<close> and \<open>decrypt_content\<close> fail with
  the same error whatever the input, which is never read. So on a platform whose
  constructors reject the sizes an algorithm does not take, a key that is \<open>null\<close> or of
  the wrong size, and an IV that is \<open>null\<close>, empty or of the wrong size, fail when the
  transform is built.
\<close>

theorem wrong_size_fails_as_constructor_does:
  assumes "algo content_key \<noteq> CONTENT_CIPHER_ALGORITHM_NOENCRYPT"
  shows "make_content_cipher_stream api content_key
        = (case key content_key of
             None \<Rightarrow> Inl TypeError
           | Some str \<Rightarrow>
               map_sum id Cipheriv
                 (createCipheriv api (algo content_key) (Buffer_from_hex str)
                    (iv_argument content_key)))
    \<and> make_content_decipher_stream api content_key
        = (case key content_key of
             None \<Rightarrow> Inl TypeError
           | Some str \<Rightarrow>
               map_sum id Cipheriv
                 (createDecipheriv api (algo content_key) (Buffer_from_hex str)
                    (iv_argument content_key)))
    \<and> (make_content_cipher_stream api content_key = Inl e
        \<longrightarrow> encrypt_content api input content_key = Inl e)
    \<and> (make_content_decipher_stream api content_key = Inl e'
        \<longrightarrow> decrypt_content api input content_key = Inl e')
    \<and> (rejects_wrong_sizes api (algo content_key) key_size iv_size
          \<and> (case key content_key of
                None \<Rightarrow> True
              | Some str \<Rightarrow> length (Buffer_from_hex str) \<noteq> key_size
                  \<or> iv_length (iv_argument content_key) \<noteq> iv_size)
        \<longrightarrow> (\<exists>e1 e2. make_content_cipher_stream api content_key = Inl e1
              \<and> make_content_decipher_stream api content_key = Inl e2
              \<and> encrypt_content api input content_key = Inl e1
              \<and> decrypt_content api input content_key = Inl e2))"
proof (intro conjI impI)
  show "make_content_cipher_stream api content_key
        = (case key content_key of
             None \<Rightarrow> Inl TypeError
           | Some str \<Rightarrow>
               map_sum id Cipheriv
                 (createCipheriv api (algo content_key) (Buffer_from_hex str)
                    (iv_argument content_key)))"
    by (rule content_stream_constructors [OF assms])
  show "make_content_decipher_stream api content_key
        = (case key content_key of
             None \<Rightarrow> Inl TypeError
           | Some str \<Rightarrow>
               map_sum id Cipheriv
                 (createDecipheriv api (algo content_key) (Buffer_from_hex str)
                    (iv_argument content_key)))"
    by (rule content_stream_constructors [OF assms])
  show "encrypt_content api input content_key = Inl e"
    if "make_content_cipher_stream api content_key = Inl e"
    using that by (rule content_fails_as_stream)
  show "decrypt_content api input content_key = Inl e'"
    if "make_content_decipher_stream api content_key = Inl e'"
    using that by (rule content_fails_as_stream)
  show "\<exists>e1 e2. make_content_cipher_stream api content_key = Inl e1
      \<and> make_content_decipher_stream api content_key = Inl e2
      \<and> encrypt_content api input content_key = Inl e1
      \<and> decrypt_content api input content_key = Inl e2"
    if h: "rejects_wrong_sizes api (algo content_key) key_size iv_size
        \<and> (case key content_key of
              None \<Rightarrow> True
            | Some str \<Rightarrow> length (Buffer_from_hex str) \<noteq> key_size
                \<or> iv_length (iv_argument content_key) \<noteq> iv_size)"
  proof -
    from h rejected_sizes_fail [OF assms, of api key_size iv_size]
    obtain e1 e2 where "make_content_cipher_stream api content_key = Inl e1"
        "make_content_decipher_stream api content_key = Inl e2"
      by (auto simp: isl_def)
    then show ?thesis
      by (auto simp: content_fails_as_stream)
  qed
qed

text \<open>
  A key of the right size without an IV, with the small cipher.
\<close>

theorem wrong_size_fails_as_constructor_does_witness:
  "''aes-256-cbc'' \<noteq> CONTENT_CIPHER_ALGORITHM_NOENCRYPT
   \<and> rejects_wrong_sizes toy_crypto ''aes-256-cbc'' 32 16
   \<and> length (Buffer_from_hex ''000102030405060708090a0b0c0d0e0f101112131415161718191a1b1c1d1e1f'') = 32
   \<and> iv_length (iv_argument \<lparr>algo = ''aes-256-cbc'',
        key = Some ''000102030405060708090a0b0c0d0e0f101112131415161718191a1b1c1d1e1f'',
        iv = None\<rparr>) \<noteq> 16
   \<and> make_content_cipher_stream toy_crypto \<lparr>algo = ''aes-256-cbc'',
        key = Some ''000102030405060708090a0b0c0d0e0f101112131415161718191a1b1c1d1e1f'',
        iv = None\<rparr> = Inl CryptoError
   \<and> make_content_decipher_stream toy_crypto \<lparr>algo = ''aes-256-cbc'',
        key = Some ''000102030405060708090a0b0c0d0e0f101112131415161718191a1b1c1d1e1f'',
        iv = None\<rparr> = Inl CryptoError
   \<and> encrypt_content toy_crypto [1, 2, 3] \<lparr>algo = ''aes-256-cbc'',
        key = Some ''000102030405060708090a0b0c0d0e0f101112131415161718191a1b1c1d1e1f'',
        iv = None\<rparr> = Inl CryptoError
   \<and> decrypt_content toy_crypto [1, 2, 3] \<lparr>algo = ''aes-256-cbc'',
        key = Some ''000102030405060708090a0b0c0d0e0f101112131415161718191a1b1c1d1e1f'',
        iv = None\<rparr> = Inl CryptoError"
proof -
  have a: "''aes-256-cbc'' \<noteq> CONTENT_CIPHER_ALGORITHM_NOENCRYPT"
    by (simp add: CONTENT_CIPHER_ALGORITHM_NOENCRYPT_def)
  have b: "length (Buffer_from_hex
      ''000102030405060708090a0b0c0d0e0f101112131415161718191a1b1c1d1e1f'') = 32"
    by (simp add: unhex_def hex_alphabet_def)
  have c: "createCipheriv toy_crypto ''aes-256-cbc'' k None = Inl CryptoError"
      "createDecipheriv toy_crypto ''aes-256-cbc'' k None = Inl CryptoError" for k
    by (simp_all add: toy_crypto_def toy_create_def)
  show ?thesis
    using wrong_size_fails_as_constructor_does [where content_key = "\<lparr>algo = ''aes-256-cbc'',
        key = Some ''000102030405060708090a0b0c0d0e0f101112131415161718191a1b1c1d1e1f'',
        iv = None\<rparr>" and api = toy_crypto and e = CryptoError and e' = CryptoError
        and input = "[1, 2, 3]" and key_size = 32 and iv_size = 16]
      a b c toy_crypto_rejects
    by (simp add: iv_argument_def iv_length_def)
qed

end
